theory Spec2Isabelle
  imports Main "HOL-Library.AList"
begin

section \<open>Python text\<close>

text \<open>
  A Python \<open>str\<close> is a sequence of Unicode code points, so \<open>len\<close> counts code points.
  A text is modelled as the list of its code points; an ASCII literal of the source is
  written \<open>U ''...''\<close>, any other literal as its code points.

  Case mapping is modelled on the ASCII letters only: \<open>lower\<close> and \<open>upper\<close> leave every
  other code point unchanged.
\<close>

type_synonym str = "nat list"

abbreviation (input) U :: "string \<Rightarrow> str" where
  "U s \<equiv> map of_char s"

text \<open>\<open>str.isspace\<close> for one character: the code points Python treats as whitespace.\<close>

definition isspace :: "nat \<Rightarrow> bool" where
  "isspace c \<longleftrightarrow>
     (9 \<le> c \<and> c \<le> 13) \<or> (28 \<le> c \<and> c \<le> 32) \<or> c = 133 \<or> c = 160 \<or> c = 5760 \<or>
     (8192 \<le> c \<and> c \<le> 8202) \<or> c = 8232 \<or> c = 8233 \<or> c = 8239 \<or> c = 8287 \<or> c = 12288"

text \<open>\<open>s.strip()\<close>\<close>

definition strip :: "str \<Rightarrow> str" where
  "strip s = rev (dropWhile isspace (rev (dropWhile isspace s)))"

definition lower_cp :: "nat \<Rightarrow> nat" where
  "lower_cp c = (if 65 \<le> c \<and> c \<le> 90 then c + 32 else c)"

definition upper_cp :: "nat \<Rightarrow> nat" where
  "upper_cp c = (if 97 \<le> c \<and> c \<le> 122 then c - 32 else c)"

text \<open>\<open>s.lower()\<close> and \<open>s.upper()\<close>\<close>

definition lower :: "str \<Rightarrow> str" where
  "lower s = map lower_cp s"

definition upper :: "str \<Rightarrow> str" where
  "upper s = map upper_cp s"

text \<open>\<open>s.startswith(p)\<close>\<close>

fun startswith :: "str \<Rightarrow> str \<Rightarrow> bool" where
  "startswith s [] = True"
| "startswith [] (p # ps) = False"
| "startswith (c # cs) (p # ps) = (c = p \<and> startswith cs ps)"

text \<open>\<open>sub in s\<close>\<close>

fun contains :: "str \<Rightarrow> str \<Rightarrow> bool" where
  "contains [] sub = (sub = [])"
| "contains (c # cs) sub = (startswith (c # cs) sub \<or> contains cs sub)"

text \<open>
  \<open>s[s.index(sub):]\<close>: the text from the first occurrence of \<open>sub\<close> on; \<open>None\<close> where
  \<open>index\<close> raises \<open>ValueError\<close> because \<open>sub\<close> does not occur.
\<close>

fun from_index :: "str \<Rightarrow> str \<Rightarrow> str option" where
  "from_index [] sub = (if sub = [] then Some [] else None)"
| "from_index (c # cs) sub = (if startswith (c # cs) sub then Some (c # cs) else from_index cs sub)"

text \<open>
  \<open>s.replace(old, new)\<close> for a non-empty \<open>old\<close> (every use in the program): occurrences
  are replaced from the left, without overlap.
\<close>

function replace :: "str \<Rightarrow> str \<Rightarrow> str \<Rightarrow> str" where
  "replace old new [] = []"
| "replace old new (c # cs) =
     (if old \<noteq> [] \<and> startswith (c # cs) old
      then new @ replace old new (drop (length old) (c # cs))
      else c # replace old new cs)"
  by pat_completeness auto
termination
  by (relation "measure (\<lambda>(old, new, s). length s)") (auto simp: neq_Nil_conv)

text \<open>
  \<open>s.split(sep)[-1]\<close> for a non-empty \<open>sep\<close>: the piece after the last separator that a
  scan from the left finds, the whole text when there is none.
\<close>

fun split_last_from :: "str \<Rightarrow> nat \<Rightarrow> str \<Rightarrow> str \<Rightarrow> str" where
  "split_last_from sep skip piece [] = piece"
| "split_last_from sep skip piece (c # cs) =
     (if 0 < skip then split_last_from sep (skip - 1) piece cs
      else if sep \<noteq> [] \<and> startswith (c # cs) sep then split_last_from sep (length sep - 1) [] cs
      else split_last_from sep 0 (piece @ [c]) cs)"

definition split_last :: "str \<Rightarrow> str \<Rightarrow> str" where
  "split_last sep s = split_last_from sep 0 [] s"

text \<open>\<open>sep.join(xs)\<close>\<close>

fun join :: "str \<Rightarrow> str list \<Rightarrow> str" where
  "join sep [] = []"
| "join sep [x] = x"
| "join sep (x # y # ys) = x @ sep @ join sep (y # ys)"

text \<open>\<open>str(n)\<close> for an integer: its decimal digits, with a minus sign when negative.\<close>

function str_nat :: "nat \<Rightarrow> str" where
  "str_nat n = (if n < 10 then [48 + n] else str_nat (n div 10) @ [48 + n mod 10])"
  by pat_completeness auto
termination
  by (relation "measure id") auto

declare str_nat.simps [simp del]

definition str_int :: "int \<Rightarrow> str" where
  "str_int i = (if i < 0 then 45 # str_nat (nat (- i)) else str_nat (nat i))"

definition think_tag :: str where
  "think_tag = U ''</think>''"


section \<open>Workflow state (node/deep\_state.py)\<close>

datatype IntentType = QUERY | ANALYZE | OTHER

record QueryMessage =
  role :: str
  content :: str

text \<open>
  \<open>DeepState\<close>, field by field. \<open>intent_ambiguous\<close> is a Python dict, which keeps its
  keys in insertion order: an association list, written with \<open>AList.update\<close> (an existing
  key keeps its place, a new key goes to the end). \<open>execution_time\<close>, a float that no stage
  reads or writes, is left out.
\<close>

record DeepState =
  user_input :: str
  session_id :: str
  database :: str
  actual_query :: str
  messages :: "QueryMessage list"
  intent_type :: IntentType
  intent_ambiguous :: "(str \<times> str option) list"
  tables :: "str list"
  table_schema :: str
  schema_context :: str
  final_sql :: "str option"
  query_data :: str
  answer :: str
  cnt :: int
  error_message :: "str option"

text \<open>The \<open>initial_state\<close> dictionary of \<open>process_chat\<close> and \<open>stream_chat\<close>, as a fresh state.\<close>

definition initial_state :: "str \<Rightarrow> str \<Rightarrow> str \<Rightarrow> DeepState" where
  "initial_state query database_id session =
     \<lparr>user_input = query, session_id = session, database = database_id, actual_query = [],
      messages = [], intent_type = OTHER, intent_ambiguous = [], tables = [],
      table_schema = [], schema_context = [], final_sql = Some [], query_data = [],
      answer = [], cnt = 0, error_message = None\<rparr>"

section \<open>Fixed texts of the stages\<close>

definition route_role :: str where "route_role = [36335, 30001]"
definition analyze_role :: str where "analyze_role = [26597, 35810, 20998, 26512]"
definition search_role :: str where "search_role = [30693, 35782, 25628, 32034]"
definition coder_role :: str where "coder_role = [83, 81, 76, 29983, 25104]"
definition fix_role :: str where "fix_role = [83, 81, 76, 20462, 22797]"
definition report_role :: str where "report_role = [25253, 21578, 20998, 26512]"

definition label_query :: str where "label_query = [38382, 25968]"
definition label_analyze :: str where "label_analyze = [20998, 26512]"
definition label_other :: str where "label_other = [20854, 20182]"

definition no_schema_msg :: str where
  "no_schema_msg = [25968, 25454, 24211, 20013, 27809, 26377, 25214, 21040, 34920, 27169, 22411]"

definition no_info :: str where "no_info = [26080]"

definition clarify_instruction :: str where
  "clarify_instruction = [38656, 35201, 28548, 28165, 20197, 19979, 27169, 31946, 27010, 24565]"

definition bad_fields_msg :: str where
  "bad_fields_msg = [25628, 32034, 21040, 30340, 23383, 27573, 26684, 24335, 19981, 27491,
     30830, 65292, 35831, 37325, 35797, 12290]"

definition parse_failed_prefix :: str where
  "parse_failed_prefix = [23383, 27573, 25628, 32034, 32467, 26524, 35299, 26512, 22833, 36133, 58, 32]"

definition no_ref_sql :: str where "no_ref_sql = [26080, 21442, 32771, 83, 81, 76]"
definition no_ref_query :: str where "no_ref_query = [26080, 21442, 32771, 26597, 35810]"

definition invalid_sql_msg :: str where
  "invalid_sql_msg = [26080, 27861, 29983, 25104, 26377, 25928, 30340, 83, 81, 76, 35821, 21477,
     65292, 35831, 26816, 26597, 26597, 35810, 26465, 20214, 21644, 25968, 25454, 24211, 32467,
     26500, 12290]"

text \<open>The answer set when the retry limit is reached.\<close>

definition exhaustion_msg :: str where
  "exhaustion_msg = [83, 81, 76, 20462, 22797, 23581, 35797, 27425, 25968, 36807, 22810, 65292,
     35831, 26816, 26597, 26597, 35810, 26465, 20214, 25110, 32852, 31995, 31649, 29702, 21592,
     12290]"

definition sql_tag :: str where "sql_tag = U ''[sql]''"
definition reply_tag :: str where "reply_tag = [91, 22238, 22797, 93]"
definition fix_failed_prefix :: str where
  "fix_failed_prefix = [83, 81, 76, 20462, 22797, 22833, 36133, 58, 32]"
definition fix_error_label :: str where "fix_error_label = [20462, 22797, 38169, 35823]"

definition open_bracket :: str where "open_bracket = U ''[''"
definition fence :: str where "fence = U ''```''"
definition sql_fence :: str where "sql_fence = U ''```sql''"

definition sql_keywords :: "str list" where
  "sql_keywords = [U ''SELECT'', U ''INSERT'', U ''UPDATE'', U ''DELETE'']"

text \<open>An \<open>Optional[str]\<close> inside an f-string: \<open>None\<close> prints as the text None.\<close>

definition fmt_opt :: "str option \<Rightarrow> str" where
  "fmt_opt v = (case v of None \<Rightarrow> U ''None'' | Some t \<Rightarrow> t)"

section \<open>Collaborators\<close>

text \<open>
  Exceptions are values. \<open>CollaboratorError\<close> stands for whatever a collaborator (the language
  model, an agent, the database, the knowledge store) raises, with its message.
\<close>

datatype exn =
    InvalidQueryError str
  | LLMServiceError str
  | ValueError str
  | TypeError str
  | GraphRecursionError
  | CollaboratorError str

text \<open>\<open>str(e)\<close>\<close>

fun exn_text :: "exn \<Rightarrow> str" where
  "exn_text (InvalidQueryError m) = m"
| "exn_text (LLMServiceError m) = m"
| "exn_text (ValueError m) = m"
| "exn_text (TypeError m) = m"
| "exn_text GraphRecursionError = U ''Recursion limit reached without hitting a stop condition''"
| "exn_text (CollaboratorError m) = m"

text \<open>
  The structured reply \<open>QueryIntent\<close> of the query analysis (node/query\_analyze.py); its
  fields carry the prefix \<open>r_\<close>, two of them having the name of a state field.
\<close>

record QueryIntent =
  r_thought :: str
  r_intent_ambiguous :: "str list"
  r_cannot_answer :: str
  r_actual_query :: str

text \<open>
  What \<open>json.loads\<close> returns, as far as \<open>TableSearchNode.search\<close> looks at it: a list
  whose items are all integers or strings (the column ids, as texts), or anything else.
\<close>

datatype json_value = JsonIdList "str list" | JsonOther

text \<open>
  The collaborators of one stage invocation, each a function of the arguments the stage passes.
  A result \<open>Inl x\<close> is the exception \<open>x\<close> raised by the call. No stage calls the same
  collaborator twice in one invocation, so a run takes one such record per step and any
  behaviour of the collaborators over time is covered.
  \<^item> \<open>llm_intent user_input\<close>: the model's reply to the intent prompt;
  \<^item> \<open>get_table_schemas database\<close>: the tables as (name, table comment) pairs, or \<open>None\<close>;
  \<^item> \<open>llm_analyze user_input info table_schema\<close>: the structured analysis reply;
  \<^item> \<open>search_agent actual_query\<close>: the last message of the table search agent;
  \<^item> \<open>re_search_ids\<close>, \<open>json_loads\<close>: the library functions \<open>re.search\<close> with the pattern
    of \<open>search\<close> (the matched text, if any) and \<open>json.loads\<close> (\<open>None\<close> for a
    \<open>JSONDecodeError\<close>);
  \<^item> \<open>get_by_column_id ids\<close>: the frame of the columns, as its markdown and the markdown of
    its three renamed columns;
  \<^item> \<open>search_sql tables\<close>, \<open>search_query user_input\<close>: reference SQL and reference queries;
  \<^item> \<open>llm_code user_input schema_context query_his_text sql_his_text\<close>: the generated text;
  \<^item> \<open>get_engine\<close>: \<open>Some x\<close> when obtaining the database engine raises \<open>x\<close>;
  \<^item> \<open>read_sql sql\<close>: \<open>Inr\<close> the markdown of the result frame, \<open>Inl\<close> the text \<open>str(e)\<close>
    of the exception caught by \<open>fix_sql\<close>;
  \<^item> \<open>fix_agent table_schema sql error\<close>: the last message of the repair agent;
  \<^item> \<open>llm_report user_input data\<close>: the analysis report.
\<close>

record env =
  llm_intent :: "str \<Rightarrow> exn + str"
  get_table_schemas :: "str \<Rightarrow> exn + (str \<times> str) list option"
  llm_analyze :: "str \<Rightarrow> str \<Rightarrow> str \<Rightarrow> exn + QueryIntent"
  search_agent :: "str \<Rightarrow> exn + str"
  re_search_ids :: "str \<Rightarrow> str option"
  json_loads :: "str \<Rightarrow> json_value option"
  get_by_column_id :: "str list \<Rightarrow> exn + str \<times> str"
  search_sql :: "str list \<Rightarrow> exn + str list"
  search_query :: "str \<Rightarrow> exn + (str \<times> str) list"
  llm_code :: "str \<Rightarrow> str \<Rightarrow> str \<Rightarrow> str \<Rightarrow> exn + str"
  get_engine :: "exn option"
  read_sql :: "str option \<Rightarrow> str + str"
  fix_agent :: "str \<Rightarrow> str option \<Rightarrow> str \<Rightarrow> exn + str"
  llm_report :: "str \<Rightarrow> str \<Rightarrow> exn + str"

text \<open>
  The log of collaborator calls a stage makes, in order. An SQL execution is logged with the
  statement and its outcome, a repair call with the statement and the error text it is given.
\<close>

datatype call =
    LlmIntent | GetTableSchemas | LlmAnalyze | SearchAgent | GetByColumnId
  | SearchSql | SearchQuery | LlmCode | GetEngine
  | ReadSql "str option" "str + str"
  | FixAgent "str option" str
  | LlmReport

text \<open>
  What a stage invocation ends with: the updated state, a suspension raised by
  \<open>interrupt\<close> (its instruction and content), or an exception.
\<close>

datatype result = Return DeepState | Interrupt str str | Raise exn


section \<open>Classify intent (node/query\_intent.py)\<close>

text \<open>\<open>_extract_response_text\<close>, on the text of the response.\<close>

definition extract_response_text :: "str \<Rightarrow> str" where
  "extract_response_text response =
     (let text = (if contains response think_tag then strip (split_last think_tag response)
                  else response)
      in strip text)"

text \<open>\<open>_parse_intent_result\<close>: the intent and, for \<open>OTHER\<close>, the reply to use as answer.\<close>

definition parse_intent_result :: "str \<Rightarrow> IntentType \<times> str option" where
  "parse_intent_result result_text =
     (let result_text_lower = strip (lower result_text) in
      if result_text_lower = U ''query'' then (QUERY, None)
      else if result_text_lower = U ''analyze'' then (ANALYZE, None)
      else if contains result_text_lower (U ''query'') \<and> length result_text_lower < 20
        then (QUERY, None)
      else if contains result_text_lower (U ''analyze'') \<and> length result_text_lower < 20
        then (ANALYZE, None)
      else (OTHER, Some result_text))"

text \<open>\<open>intent_map.get(result_text, ...)\<close>, the label shown in the transcript.\<close>

definition intent_map_get :: "str \<Rightarrow> str" where
  "intent_map_get result_text =
     (if result_text = U ''query'' then label_query
      else if result_text = U ''analyze'' then label_analyze
      else label_other)"

text \<open>
  \<open>QueryIntentNode.parse_intent\<close>. Any exception inside is raised again as
  \<open>LLMServiceError\<close>.
\<close>

definition parse_intent :: "env \<Rightarrow> DeepState \<Rightarrow> call list \<times> result" where
  "parse_intent e state =
     (case llm_intent e (user_input state) of
        Inl x \<Rightarrow>
          ([LlmIntent], Raise (LLMServiceError (U ''Intent analysis failed: '' @ exn_text x)))
      | Inr response \<Rightarrow>
          (let result_text = extract_response_text response;
               state = state\<lparr>messages := messages state @
                         [\<lparr>role = route_role, content = intent_map_get result_text\<rparr>]\<rparr>;
               parsed = parse_intent_result result_text;
               state = state\<lparr>intent_type := fst parsed\<rparr>;
               state = (case snd parsed of
                          Some reply \<Rightarrow>
                            if fst parsed = OTHER \<and> reply \<noteq> [] then state\<lparr>answer := reply\<rparr>
                            else state
                        | None \<Rightarrow> state)
           in ([LlmIntent], Return state)))"

section \<open>Clarify ambiguities (node/query\_analyze.py)\<close>

definition get_user_question :: "DeepState \<Rightarrow> str list" where
  "get_user_question state =
     (if intent_ambiguous state \<noteq> []
      then [key. (key, value) \<leftarrow> intent_ambiguous state, value = None]
      else [])"

text \<open>
  The loop over \<open>question_list\<close>. \<open>interrupt\<close> returns the resume values the suspended
  stage has been given so far, one per call and in order, and suspends (\<open>Inl\<close>, with the
  question) at the first call that has none: a resumed stage runs again from its start.
\<close>

fun clarify :: "str list \<Rightarrow> str list \<Rightarrow> (str \<times> str option) list \<Rightarrow> str + (str \<times> str option) list" where
  "clarify [] resumes ambiguous = Inr ambiguous"
| "clarify (question # questions) [] ambiguous = Inl question"
| "clarify (question # questions) (updated # resumes) ambiguous =
     clarify questions resumes (AList.update question (Some updated) ambiguous)"

text \<open>
  The loop that adds the concepts the analysis reports as ambiguous, each as an unresolved
  entry (\<open>state.intent_ambiguous[ambiguous_concept] = None\<close>).
\<close>

definition add_ambiguous :: "(str \<times> str option) list \<Rightarrow> str list \<Rightarrow> (str \<times> str option) list" where
  "add_ambiguous ambiguous concepts =
     foldl (\<lambda>ambiguous concept. AList.update concept None ambiguous) ambiguous concepts"

text \<open>The lines \<open>key: value\<close> of the known clarifications.\<close>

definition info_lines :: "(str \<times> str option) list \<Rightarrow> str" where
  "info_lines ambiguous =
     (if ambiguous \<noteq> []
      then join [10] (map (\<lambda>(key, value). key @ U '': '' @ fmt_opt value) ambiguous)
      else no_info)"

definition schema_lines :: "(str \<times> str) list \<Rightarrow> str" where
  "schema_lines schema =
     foldl (\<lambda>table_schema (table_name, comment). table_schema @ [10] @ table_name @ U '': '' @ comment)
       [] schema"

text \<open>\<open>actual_query\<close> if there is one, else the original \<open>user_input\<close>.\<close>

definition query_text :: "DeepState \<Rightarrow> str" where
  "query_text state = (if actual_query state \<noteq> [] then actual_query state else user_input state)"

text \<open>\<open>QueryAnalyzeNode.analyze_query\<close>, given the resume values of the invocation.\<close>

definition analyze_query :: "env \<Rightarrow> str list \<Rightarrow> DeepState \<Rightarrow> call list \<times> result" where
  "analyze_query e resumes state =
     (let user_text = query_text state in
      case get_table_schemas e (database state) of
        Inl x \<Rightarrow> ([GetTableSchemas], Raise x)
      | Inr None \<Rightarrow> ([GetTableSchemas], Return (state\<lparr>answer := no_schema_msg\<rparr>))
      | Inr (Some schema) \<Rightarrow>
          (case clarify (get_user_question state) resumes (intent_ambiguous state) of
             Inl question \<Rightarrow> ([GetTableSchemas], Interrupt clarify_instruction question)
           | Inr ambiguous \<Rightarrow>
               (let state = state\<lparr>intent_ambiguous := ambiguous\<rparr>;
                    info = info_lines (intent_ambiguous state);
                    state = state\<lparr>table_schema := schema_lines schema\<rparr>
                in case llm_analyze e user_text info (table_schema state) of
                     Inl x \<Rightarrow> ([GetTableSchemas, LlmAnalyze], Raise x)
                   | Inr reply \<Rightarrow>
                       (let state = (if r_cannot_answer reply \<noteq> []
                                     then state\<lparr>answer := r_cannot_answer reply\<rparr> else state);
                            state = state\<lparr>actual_query := r_actual_query reply\<rparr>;
                            state = state\<lparr>messages := messages state @
                                      [\<lparr>role = analyze_role, content = r_thought reply\<rparr>]\<rparr>;
                            state = state\<lparr>intent_ambiguous :=
                                      add_ambiguous (intent_ambiguous state) (r_intent_ambiguous reply)\<rparr>
                        in ([GetTableSchemas, LlmAnalyze], Return state)))))"

section \<open>Discover fields (node/table\_search.py)\<close>

text \<open>The text cleaned of think tag and fences, and the match of the id-list pattern in it.\<close>

definition clean_found :: "str \<Rightarrow> str" where
  "clean_found reply = strip (replace fence [] (split_last think_tag reply))"

definition matched_text :: "env \<Rightarrow> str \<Rightarrow> str" where
  "matched_text e result_text =
     (case re_search_ids e result_text of Some matched \<Rightarrow> matched | None \<Rightarrow> result_text)"

definition search :: "env \<Rightarrow> DeepState \<Rightarrow> call list \<times> result" where
  "search e state =
     (if answer state \<noteq> [] then
        ([], Return (state\<lparr>messages := messages state @ [\<lparr>role = search_role, content = []\<rparr>]\<rparr>))
      else
        case search_agent e (actual_query state) of
          Inl x \<Rightarrow> ([SearchAgent], Raise x)
        | Inr reply \<Rightarrow>
            (let result_text = clean_found reply;
                 result_text = matched_text e result_text
             in if startswith result_text open_bracket then
                  (case json_loads e result_text of
                     None \<Rightarrow>
                       ([SearchAgent], Return (state\<lparr>answer := parse_failed_prefix @ result_text\<rparr>))
                   | Some JsonOther \<Rightarrow> ([SearchAgent], Return (state\<lparr>answer := bad_fields_msg\<rparr>))
                   | Some (JsonIdList col_list) \<Rightarrow>
                       (case get_by_column_id e col_list of
                          Inl x \<Rightarrow> ([SearchAgent, GetByColumnId], Raise x)
                        | Inr (markdown, shown) \<Rightarrow>
                            ([SearchAgent, GetByColumnId],
                             Return (state\<lparr>schema_context := markdown,
                                       messages := messages state @
                                         [\<lparr>role = search_role, content = shown\<rparr>]\<rparr>))))
                else ([SearchAgent], Return (state\<lparr>answer := result_text\<rparr>))))"

section \<open>Generate SQL (node/sql\_coder.py)\<close>

text \<open>The clean-up of the model's reply in \<open>code_sql\<close>.\<close>

definition clean_sql :: "str \<Rightarrow> str" where
  "clean_sql res = strip (replace fence [] (replace sql_fence [] (strip (split_last think_tag res))))"

text \<open>\<open>any(keyword in res.upper() for keyword in [...])\<close>\<close>

definition has_sql_keyword :: "str \<Rightarrow> bool" where
  "has_sql_keyword res = list_ex (\<lambda>keyword. contains (upper res) keyword) sql_keywords"

text \<open>The reference SQL and the reference queries, as the prompt shows them.\<close>

definition sql_his_text :: "str list \<Rightarrow> str" where
  "sql_his_text sql_his = (if sql_his \<noteq> [] then join [10] sql_his else no_ref_sql)"

definition query_his_text :: "(str \<times> str) list \<Rightarrow> str" where
  "query_his_text query_his =
     (if query_his \<noteq> [] then join [10] (map (\<lambda>(q, a). q @ U '': '' @ a) query_his)
      else no_ref_query)"

definition code_sql :: "env \<Rightarrow> DeepState \<Rightarrow> call list \<times> result" where
  "code_sql e state =
     (if answer state \<noteq> [] then
        ([], Return (state\<lparr>messages := messages state @ [\<lparr>role = coder_role, content = []\<rparr>]\<rparr>))
      else
        case search_sql e (tables state) of
          Inl x \<Rightarrow> ([SearchSql], Raise x)
        | Inr sql_his \<Rightarrow>
        (case search_query e (actual_query state) of
          Inl x \<Rightarrow> ([SearchSql, SearchQuery], Raise x)
        | Inr query_his \<Rightarrow>
        (case llm_code e (actual_query state) (schema_context state)
                (query_his_text query_his) (sql_his_text sql_his) of
              Inl x \<Rightarrow> ([SearchSql, SearchQuery, LlmCode], Raise x)
            | Inr res \<Rightarrow>
                (let state = state\<lparr>messages := messages state @
                               [\<lparr>role = coder_role, content = sql_fence @ [10] @ res @ [10] @ fence\<rparr>]\<rparr>;
                     res = clean_sql res
                 in if res \<noteq> [] \<and> has_sql_keyword res
                    then ([SearchSql, SearchQuery, LlmCode], Return (state\<lparr>final_sql := Some res\<rparr>))
                    else ([SearchSql, SearchQuery, LlmCode],
                          Return (state\<lparr>answer := invalid_sql_msg\<rparr>))))))"

section \<open>Execute and repair SQL (node/sql\_fix.py)\<close>

text \<open>The transcript entry of a repair, from the statement and the error text.\<close>

definition fix_message :: "str option \<Rightarrow> str \<Rightarrow> str" where
  "fix_message sql error =
     sql_fence @ [10] @ fmt_opt sql @ [10] @ fence @ [10] @ fix_error_label @ [10, 32] @ fence @
     [10] @ error @ [10] @ fence"

text \<open>The repair agent's reply, cleaned of think tag and fences.\<close>

definition clean_fix :: "str \<Rightarrow> str" where
  "clean_fix reply = strip (replace fence [] (replace sql_fence [] (split_last think_tag reply)))"

definition fix_sql :: "env \<Rightarrow> DeepState \<Rightarrow> call list \<times> result" where
  "fix_sql e state =
     (if answer state \<noteq> [] then
        ([], Return (state\<lparr>messages := messages state @
                       [\<lparr>role = fix_role @ str_int (cnt state), content = []\<rparr>]\<rparr>))
      else
        let sql = final_sql state;
            state = state\<lparr>cnt := cnt state + 1\<rparr>
        in case get_engine e of
             Some x \<Rightarrow> ([GetEngine], Raise x)
           | None \<Rightarrow>
          (case read_sql e sql of
             Inr markdown \<Rightarrow>
               (let state = state\<lparr>query_data := markdown\<rparr>;
                    state = (if intent_type state = QUERY then state\<lparr>answer := query_data state\<rparr>
                             else state)
                in ([GetEngine, ReadSql sql (Inr markdown)], Return state))
           | Inl error \<Rightarrow>
               if cnt state > 10 then
                 ([GetEngine, ReadSql sql (Inl error)], Return (state\<lparr>answer := exhaustion_msg\<rparr>))
               else
                 (case fix_agent e (table_schema state) sql error of
                    Inl x \<Rightarrow> ([GetEngine, ReadSql sql (Inl error), FixAgent sql error], Raise x)
                  | Inr reply \<Rightarrow>
                      (let state = state\<lparr>messages := messages state @
                                     [\<lparr>role = fix_role @ str_int (cnt state),
                                       content = fix_message sql error\<rparr>]\<rparr>;
                           result_text = clean_fix reply;
                           logged = [GetEngine, ReadSql sql (Inl error), FixAgent sql error]
                       in if contains result_text sql_tag then
                            (case from_index result_text sql_tag of
                               None \<Rightarrow> (logged, Raise (ValueError (U ''substring not found'')))
                             | Some rest \<Rightarrow>
                                 (logged, Return (state\<lparr>final_sql := Some (strip (replace sql_tag [] rest))\<rparr>)))
                          else if startswith result_text reply_tag then
                            (logged, Return (state\<lparr>answer := strip (replace reply_tag [] result_text)\<rparr>))
                          else
                            (logged, Return (state\<lparr>answer := fix_failed_prefix @ result_text\<rparr>))))))"

section \<open>Summarize (node/analyze\_node.py)\<close>

definition analyze_data :: "env \<Rightarrow> DeepState \<Rightarrow> call list \<times> result" where
  "analyze_data e state =
     (if answer state \<noteq> [] then
        ([], Return (state\<lparr>messages := messages state @ [\<lparr>role = report_role, content = []\<rparr>]\<rparr>))
      else
        case llm_report e (actual_query state) (query_data state) of
          Inl x \<Rightarrow> ([LlmReport], Raise x)
        | Inr report \<Rightarrow> ([LlmReport], Return (state\<lparr>answer := strip (split_last think_tag report)\<rparr>)))"


section \<open>The graph (sql\_copilot.py)\<close>

text \<open>The nodes added by \<open>get_sql_copilot\<close>, under the names it gives them.\<close>

datatype node = query_intent | query_analyze | table_search | sql_coder | sql_fix | analyzer

text \<open>What a router returns: the name of the next node, or \<open>END\<close>.\<close>

datatype target = Node node | END

definition intent_path :: "DeepState \<Rightarrow> target" where
  "intent_path state = (if intent_type state = OTHER then END else Node query_analyze)"

definition analyze_path_map :: "DeepState \<Rightarrow> target" where
  "analyze_path_map state =
     (if get_user_question state \<noteq> [] then Node query_analyze else Node table_search)"

definition fix_path :: "DeepState \<Rightarrow> target" where
  "fix_path state =
     (if query_data state \<noteq> []
      then (if intent_type state = ANALYZE then Node analyzer else END)
      else Node sql_fix)"

text \<open>
  The edges: the conditional edges of \<open>query_intent\<close>, \<open>query_analyze\<close> and \<open>sql_fix\<close>,
  the plain edges of \<open>table_search\<close> and \<open>sql_coder\<close>, and the finish point \<open>analyzer\<close>.
\<close>

fun next_node :: "node \<Rightarrow> DeepState \<Rightarrow> target" where
  "next_node query_intent state = intent_path state"
| "next_node query_analyze state = analyze_path_map state"
| "next_node table_search state = Node sql_coder"
| "next_node sql_coder state = Node sql_fix"
| "next_node sql_fix state = fix_path state"
| "next_node analyzer state = END"

definition entry_point :: node where
  "entry_point = query_intent"

text \<open>The function each node runs. Only \<open>analyze_query\<close> calls \<open>interrupt\<close>.\<close>

fun exec_node :: "env \<Rightarrow> node \<Rightarrow> str list \<Rightarrow> DeepState \<Rightarrow> call list \<times> result" where
  "exec_node e query_intent resumes state = parse_intent e state"
| "exec_node e query_analyze resumes state = analyze_query e resumes state"
| "exec_node e table_search resumes state = search e state"
| "exec_node e sql_coder resumes state = code_sql e state"
| "exec_node e sql_fix resumes state = fix_sql e state"
| "exec_node e analyzer resumes state = analyze_data e state"

text \<open>One step of a run: the node, the state it was given, its calls and how it ended.\<close>

record step =
  at :: node
  pre :: DeepState
  calls :: "call list"
  res :: result

text \<open>
  How a run of the compiled graph ends: at \<open>END\<close> with the final state; suspended, with the
  node that called \<open>interrupt\<close>, the state that node was given (the checkpoint), the
  resume values it had and the question; or with an exception.
\<close>

datatype outcome =
    Finished DeepState
  | Suspended node DeepState "str list" str
  | Failed exn

text \<open>
  A run of the compiled graph from a node: the node's function runs, then its router or edge
  gives the next node, one node at a time, until \<open>END\<close>, a suspension or an exception. The
  graph library stops a run that has taken \<open>limit\<close> steps without reaching \<open>END\<close> with
  \<open>GraphRecursionError\<close> (\<open>recursion_limit\<close>: 25 unless configured, 100 in
  \<open>stream_chat\<close>). \<open>envs k\<close> holds the collaborators as they answer during step \<open>k\<close>;
  \<open>resumes\<close> are the resume values of the first node, which is the suspended node when the
  run is a resumption.
\<close>

fun run :: "nat \<Rightarrow> (nat \<Rightarrow> env) \<Rightarrow> node \<Rightarrow> str list \<Rightarrow> DeepState \<Rightarrow> step list \<times> outcome" where
  "run 0 envs n resumes state = ([], Failed GraphRecursionError)"
| "run (Suc limit) envs n resumes state =
     (case exec_node (envs 0) n resumes state of
        (logged, Raise x) \<Rightarrow> ([\<lparr>at = n, pre = state, calls = logged, res = Raise x\<rparr>], Failed x)
      | (logged, Interrupt instruction question) \<Rightarrow>
          ([\<lparr>at = n, pre = state, calls = logged, res = Interrupt instruction question\<rparr>],
           Suspended n state resumes question)
      | (logged, Return state') \<Rightarrow>
          (case next_node n state' of
             END \<Rightarrow> ([\<lparr>at = n, pre = state, calls = logged, res = Return state'\<rparr>], Finished state')
           | Node n' \<Rightarrow>
               (let rest = run limit (\<lambda>k. envs (Suc k)) n' [] state'
                in (\<lparr>at = n, pre = state, calls = logged, res = Return state'\<rparr> # fst rest, snd rest))))"

text \<open>Observations on a trace.\<close>

fun is_fix_call :: "call \<Rightarrow> bool" where
  "is_fix_call (FixAgent sql error) = True"
| "is_fix_call c = False"

fun is_failed_exec :: "call \<Rightarrow> bool" where
  "is_failed_exec (ReadSql sql (Inl error)) = True"
| "is_failed_exec c = False"

fun is_good_exec :: "call \<Rightarrow> bool" where
  "is_good_exec (ReadSql sql (Inr markdown)) = True"
| "is_good_exec c = False"

text \<open>The number of calls of the repair collaborator in a trace.\<close>

definition repair_calls :: "step list \<Rightarrow> nat" where
  "repair_calls tr = length (filter is_fix_call (concat (map calls tr)))"

text \<open>No SQL execution in the trace succeeded.\<close>

definition no_good_exec :: "step list \<Rightarrow> bool" where
  "no_good_exec tr = (\<not> list_ex is_good_exec (concat (map calls tr)))"

text \<open>
  The step in which the repair loop gives up at the retry limit: \<open>fix_sql\<close> executed the
  statement, the execution failed, and the stage returned without calling the repair
  collaborator.
\<close>

definition exhausted_step :: "step \<Rightarrow> bool" where
  "exhausted_step st \<longleftrightarrow>
     at st = sql_fix \<and> answer (pre st) = [] \<and> calls st \<noteq> [] \<and> is_failed_exec (last (calls st)) \<and>
     (case res st of Return state' \<Rightarrow> True | _ \<Rightarrow> False)"

section \<open>Chat entry points (app.py)\<close>


text \<open>
  What \<open>graph.invoke\<close> returns: the state values and, under \<open>__interrupt__\<close>, the contents
  of the pending interrupts.
\<close>

record graph_result =
  state_values :: DeepState
  interrupts :: "str list"


datatype chat_response =
    Completed str "str option" str
  | Interrupted str
  | UnexpectedState

text \<open>The part of \<open>process_chat\<close> after \<open>graph.invoke\<close>: "Check result state".\<close>

definition check_result :: "graph_result \<Rightarrow> chat_response" where
  "check_result result =
     (if answer (state_values result) \<noteq> [] then
        Completed (answer (state_values result)) (final_sql (state_values result)) (query_data (state_values result))
      else case interrupts result of
             question # others \<Rightarrow> Interrupted question
           | [] \<Rightarrow> UnexpectedState)"












section \<open>Observations and reference notions\<close>

text \<open>The state a stage returned, and the state a run finished with.\<close>

fun returned :: "call list \<times> result \<Rightarrow> DeepState option" where
  "returned (logged, Return state) = Some state"
| "returned (logged, r) = None"

fun final_state :: "step list \<times> outcome \<Rightarrow> DeepState option" where
  "final_state (tr, Finished state) = Some state"
| "final_state (tr, out) = None"

text \<open>The question a run is suspended with.\<close>

fun suspended_with :: "step list \<times> outcome \<Rightarrow> str option" where
  "suspended_with (tr, Suspended n state resumes question) = Some question"
| "suspended_with (tr, out) = None"

text \<open>The nodes a run invoked, in order.\<close>

definition invoked :: "step list \<times> outcome \<Rightarrow> node list" where
  "invoked r = map at (fst r)"

text \<open>The value an ambiguity mapping holds for a topic (\<open>None\<close>: the topic is not a key).\<close>

definition lookup :: "(str \<times> str option) list \<Rightarrow> str \<Rightarrow> str option option" where
  "lookup ambiguous topic = map_of ambiguous topic"



section \<open>Example collaborators and states\<close>

text \<open>
  The scenario of the specification: the request classifies as \<open>query\<close>, nothing is
  ambiguous, two fields are found, SQL is generated and runs at once.
\<close>

definition shop_sql :: str where
  "shop_sql = U ''SELECT product_id, sales_amount FROM sales ORDER BY sales_amount DESC LIMIT 10''"

definition shop_table :: str where
  "shop_table = U ''| product_id | sales_amount |''"

definition repair_reply :: str where
  "repair_reply = U ''[sql]SELECT 1''"

definition repaired_sql :: str where
  "repaired_sql = U ''SELECT 1''"

definition column_error :: str where
  "column_error = U ''no such column''"

definition shop_env :: env where
  "shop_env =
     \<lparr>llm_intent = (\<lambda>user_text. Inr (U ''query'')),
      get_table_schemas = (\<lambda>db. Inr (Some [(U ''sales'', U ''orders'')])),
      llm_analyze = (\<lambda>user_text info schema.
         Inr \<lparr>r_thought = U ''clear'', r_intent_ambiguous = [], r_cannot_answer = [],
              r_actual_query = user_text\<rparr>),
      search_agent = (\<lambda>q. Inr (U ''[1, 2]'')),
      re_search_ids = (\<lambda>t. if t = U ''[1, 2]'' then Some t else None),
      json_loads = (\<lambda>t. if t = U ''[1, 2]'' then Some (JsonIdList [U ''1'', U ''2'']) else None),
      get_by_column_id = (\<lambda>ids. Inr (U ''| sales | product_id |'', U ''| sales |'')),
      search_sql = (\<lambda>ts. Inr []),
      search_query = (\<lambda>q. Inr []),
      llm_code = (\<lambda>q ctx qh sh. Inr shop_sql),
      get_engine = None,
      read_sql = (\<lambda>sql. Inr shop_table),
      fix_agent = (\<lambda>schema sql error. Inr repair_reply),
      llm_report = (\<lambda>q d. Inr (U ''report''))\<rparr>"

definition shop_envs :: "nat \<Rightarrow> env" where
  "shop_envs k = shop_env"

definition shop_state :: DeepState where
  "shop_state = initial_state (U ''show top 10 products by sales'') (U ''shop'') (U ''s1'')"

text \<open>Every execution fails and every repair returns new SQL.\<close>

definition failing_env :: env where
  "failing_env = shop_env\<lparr>read_sql := (\<lambda>sql. Inl column_error)\<rparr>"

definition failing_envs :: "nat \<Rightarrow> env" where
  "failing_envs k = failing_env"

definition generated_state :: DeepState where
  "generated_state = shop_state\<lparr>intent_type := QUERY, final_sql := Some (U ''SELECT x'')\<rparr>"

text \<open>A state in which an earlier stage has set the answer.\<close>

definition answered_state :: DeepState where
  "answered_state = shop_state\<lparr>intent_type := QUERY, answer := U ''no such data''\<rparr>"

text \<open>One open topic; the analysis after the answer reports another one, or the same again.\<close>

definition metric :: str where "metric = U ''metric''"
definition period :: str where "period = U ''period''"
definition revenue :: str where "revenue = U ''revenue''"

definition metric_state :: DeepState where
  "metric_state = shop_state\<lparr>intent_type := QUERY, intent_ambiguous := [(metric, None)]\<rparr>"

definition period_env :: env where
  "period_env = shop_env\<lparr>llm_analyze := (\<lambda>user_text info schema.
     Inr \<lparr>r_thought = U ''which period'', r_intent_ambiguous = [period],
          r_cannot_answer = [], r_actual_query = user_text\<rparr>)\<rparr>"

definition period_envs :: "nat \<Rightarrow> env" where
  "period_envs k = period_env"

definition relisting_env :: env where
  "relisting_env = shop_env\<lparr>llm_analyze := (\<lambda>user_text info schema.
     Inr \<lparr>r_thought = U ''which metric'', r_intent_ambiguous = [metric],
          r_cannot_answer = [], r_actual_query = user_text\<rparr>)\<rparr>"

text \<open>Replies of the intent classifier that are not a bare label.\<close>

definition greeting_reply :: str where
  "greeting_reply = U ''Hello, I can help you with data.''"

definition greeting_env :: env where
  "greeting_env = shop_env\<lparr>llm_intent := (\<lambda>user_text. Inr greeting_reply)\<rparr>"

definition greeting_envs :: "nat \<Rightarrow> env" where
  "greeting_envs k = greeting_env"








section \<open>Properties of the text functions\<close>







section \<open>The example collaborators, evaluated\<close>

lemmas text_eval = strip_def isspace_def split_last_def think_tag_def fence_def sql_fence_def
  upper_def upper_cp_def lower_def lower_cp_def sql_tag_def reply_tag_def

lemmas shop_eval = shop_env_def shop_state_def initial_state_def shop_sql_def shop_table_def

lemma clean_shop_sql: "clean_sql shop_sql = shop_sql"
  by (simp add: clean_sql_def shop_sql_def text_eval)

lemma keyword_shop_sql: "has_sql_keyword shop_sql"
  by (simp add: has_sql_keyword_def sql_keywords_def shop_sql_def text_eval)

lemma shop_sql_nonempty: "shop_sql \<noteq> []"
  by (simp add: shop_sql_def)




lemma parse_intent_greeting:
  "parse_intent greeting_env shop_state =
     ([LlmIntent],
      Return (shop_state\<lparr>messages := [\<lparr>role = route_role, content = label_other\<rparr>],
                intent_type := OTHER, answer := greeting_reply\<rparr>))"
proof -
  have a: "llm_intent greeting_env q = Inr greeting_reply" for q
    by (simp add: greeting_env_def)
  have b: "extract_response_text greeting_reply = greeting_reply"
    by (simp add: extract_response_text_def greeting_reply_def text_eval)
  have c: "parse_intent_result greeting_reply = (OTHER, Some greeting_reply)"
    by (simp add: parse_intent_result_def greeting_reply_def text_eval)
  have d: "intent_map_get greeting_reply = label_other"
    by (simp add: intent_map_get_def greeting_reply_def)
  have e: "greeting_reply \<noteq> []" by (simp add: greeting_reply_def)
  have f: "messages shop_state = []" by (simp add: shop_eval)
  show ?thesis by (simp add: parse_intent_def Let_def a b c d e f)
qed

section \<open>Routing reads no transcript\<close>

text \<open>
  C8. The transcript (\<open>messages\<close>) is never consulted for routing: two states that differ
  only in their transcript get the same decision from the router after classify-intent
  (\<open>intent_path\<close>), after the clarification stage (\<open>analyze_path_map\<close>) and after repair-sql
  (\<open>fix_path\<close>), and from every edge of the graph.
\<close>

theorem routers_ignore_transcript:
  "intent_path (s\<lparr>messages := m\<rparr>) = intent_path s \<and>
   analyze_path_map (s\<lparr>messages := m\<rparr>) = analyze_path_map s \<and>
   fix_path (s\<lparr>messages := m\<rparr>) = fix_path s \<and>
   next_node n (s\<lparr>messages := m\<rparr>) = next_node n s"
  by (cases n) (simp_all add: intent_path_def analyze_path_map_def fix_path_def get_user_question_def)

theorem routers_ignore_transcript_witness:
  "fix_path (answered_state\<lparr>messages := [\<lparr>role = route_role, content = label_query\<rparr>]\<rparr>)
     = fix_path answered_state"
  using routers_ignore_transcript
          [where s = answered_state and m = "[\<lparr>role = route_role, content = label_query\<rparr>]" and n = sql_fix]
  by blast

section \<open>Empty requests\<close>




section \<open>Classifying the intent\<close>




text \<open>
  C6. In every run in which the classify-intent stage sets the intent to \<open>OTHER\<close>, the
  router after it returns \<open>END\<close> and the run finishes after that one stage: the trace holds
  the classify step only, so field discovery, SQL generation, repair and summarize are never
  invoked.
\<close>

theorem other_intent_ends_run:
  assumes "parse_intent (envs 0) state = (logged, Return state')" and "intent_type state' = OTHER"
      and "0 < limit"
  shows "intent_path state' = END \<and>
         run limit envs query_intent resumes state =
           ([\<lparr>at = query_intent, pre = state, calls = logged, res = Return state'\<rparr>], Finished state') \<and>
         invoked (run limit envs query_intent resumes state) = [query_intent]"
proof -
  from assms(3) obtain k where "limit = Suc k" by (cases limit) auto
  with assms(1,2) show ?thesis by (simp add: intent_path_def invoked_def)
qed

theorem other_intent_ends_run_witness:
  "invoked (run 25 greeting_envs entry_point [] shop_state) = [query_intent] \<and>
   map_option answer (final_state (run 25 greeting_envs entry_point [] shop_state)) = Some greeting_reply"
proof -
  let ?s = "shop_state\<lparr>messages := [\<lparr>role = route_role, content = label_other\<rparr>],
                intent_type := OTHER, answer := greeting_reply\<rparr>"
  have r: "parse_intent (greeting_envs 0) shop_state = ([LlmIntent], Return ?s)"
    by (simp add: greeting_envs_def parse_intent_greeting)
  have i: "intent_type ?s = OTHER" by simp
  have l: "0 < (25::nat)" by simp
  from other_intent_ends_run [where envs = greeting_envs and resumes = "[]", OF r i l]
  show ?thesis by (simp add: entry_point_def invoked_def)
qed

section \<open>Generating SQL\<close>





section \<open>The repair loop\<close>

lemma exhaustion_msg_nonempty: "exhaustion_msg \<noteq> []"
  by (simp add: exhaustion_msg_def)

lemma fix_sql_skip:
  "answer s \<noteq> [] \<Longrightarrow>
   fix_sql e s = ([], Return (s\<lparr>messages := messages s @ [\<lparr>role = fix_role @ str_int (cnt s), content = []\<rparr>]\<rparr>))"
  by (simp add: fix_sql_def)

lemma fix_sql_calls:
  assumes "fix_sql e s = (c, r)"
  shows "length (filter is_fix_call c) \<le> 1"
    and "filter is_fix_call c \<noteq> [] \<Longrightarrow> cnt s + 1 \<le> 10 \<and> answer s = []"
  using assms
  by (auto simp: fix_sql_def Let_def split: if_splits option.splits sum.splits)

lemma fix_sql_cnt:
  assumes "fix_sql e s = (c, Return s')"
  shows "cnt s' = (if answer s = [] then cnt s + 1 else cnt s)"
    and "answer s \<noteq> [] \<Longrightarrow> answer s' = answer s"
  using assms
  by (auto simp: fix_sql_def Let_def split: if_splits option.splits sum.splits)

lemma fix_sql_exhausted:
  assumes "fix_sql e s = (c, Return s')" and "answer s = []" and "c \<noteq> []" and "is_failed_exec (last c)"
  shows "10 < cnt s + 1 \<and> s' = s\<lparr>cnt := cnt s + 1, answer := exhaustion_msg\<rparr> \<and> filter is_fix_call c = []"
  using assms
  by (auto simp: fix_sql_def Let_def split: if_splits option.splits sum.splits)

lemma fix_sql_repaired:
  assumes "fix_sql e s = (c, Return s')" and "answer s = []" and "\<not> list_ex is_good_exec c"
    and "\<not> (c \<noteq> [] \<and> is_failed_exec (last c))"
  shows "length (filter is_fix_call c) = 1"
  using assms
  by (auto simp: fix_sql_def Let_def split: if_splits option.splits sum.splits)

lemma analyze_data_calls:
  assumes "analyze_data e s = (c, r)"
  shows "filter is_fix_call c = []" and "answer s \<noteq> [] \<Longrightarrow> r = Return s' \<Longrightarrow> answer s' = answer s"
  using assms
  by (auto simp: analyze_data_def split: if_splits sum.splits)


text \<open>A run that starts in the repair loop stays in the repair loop or the summary.\<close>

lemma run_analyzer:
  assumes "run limit envs analyzer rs s = (tr, out)" and "st \<in> set tr"
  shows "at st = analyzer \<and> pre st = s \<and> filter is_fix_call (calls st) = [] \<and> tr = [st]"
proof (cases limit)
  case 0
  with assms show ?thesis by simp
next
  case (Suc k)
  obtain c r where cr: "analyze_data (envs 0) s = (c, r)" by (cases "analyze_data (envs 0) s")
  with analyze_data_calls(1) have "filter is_fix_call c = []" by blast
  with assms Suc cr show ?thesis
    by (cases r) auto
qed

lemma run_fix_step:
  assumes "run (Suc k) envs sql_fix rs s = (tr, out)" and "fix_sql (envs 0) s = (c, r)"
  shows "\<exists>tr'. tr = \<lparr>at = sql_fix, pre = s, calls = c, res = r\<rparr> # tr' \<and>
           (tr' = [] \<or>
            (\<exists>s1 n' out'. r = Return s1 \<and> (n' = sql_fix \<or> n' = analyzer) \<and>
                 run k (\<lambda>k. envs (Suc k)) n' [] s1 = (tr', out')))"
proof (cases r)
  case (Return s1)
  show ?thesis
  proof (cases "fix_path s1")
    case END
    with assms Return show ?thesis by auto
  next
    case (Node n')
    then have n': "n' = sql_fix \<or> n' = analyzer"
      by (auto simp: fix_path_def split: if_splits)
    obtain tr' out' where r': "run k (\<lambda>k. envs (Suc k)) n' [] s1 = (tr', out')"
      by (cases "run k (\<lambda>k. envs (Suc k)) n' [] s1")
    with assms Return Node have "tr = \<lparr>at = sql_fix, pre = s, calls = c, res = r\<rparr> # tr'"
      by auto
    with n' r' Return show ?thesis by blast
  qed
next
  case (Interrupt a b)
  with assms show ?thesis by auto
next
  case (Raise x)
  with assms show ?thesis by auto
qed

lemma run_fix_answered:
  assumes "run limit envs n rs s = (tr, out)" and "n = sql_fix \<or> n = analyzer"
      and "answer s \<noteq> []" and "st \<in> set tr"
  shows "answer (pre st) \<noteq> []"
  using assms
proof (induction limit arbitrary: envs n rs s tr out)
  case 0
  then show ?case by simp
next
  case (Suc k)
  show ?case
  proof (cases "n = analyzer")
    case True
    from run_analyzer [OF Suc.prems(1) [unfolded True] Suc.prems(4)] have "pre st = s" by blast
    with Suc.prems(3) show ?thesis by simp
  next
    case False
    with Suc.prems(2) have n: "n = sql_fix" by simp
    obtain c r where cr: "fix_sql (envs 0) s = (c, r)" by (cases "fix_sql (envs 0) s")
    from run_fix_step [OF Suc.prems(1) [unfolded n] cr]
    obtain tr' where tr: "tr = \<lparr>at = sql_fix, pre = s, calls = c, res = r\<rparr> # tr'"
      and rest: "tr' = [] \<or> (\<exists>s1 n' out'. r = Return s1 \<and> (n' = sql_fix \<or> n' = analyzer) \<and>
                 run k (\<lambda>k. envs (Suc k)) n' [] s1 = (tr', out'))"
      by blast
    show ?thesis
    proof (cases "st \<in> set tr'")
      case False
      with tr Suc.prems(3,4) show ?thesis by auto
    next
      case True
      with rest obtain s1 n' out' where s1: "r = Return s1" "n' = sql_fix \<or> n' = analyzer"
        "run k (\<lambda>k. envs (Suc k)) n' [] s1 = (tr', out')" by auto
      from fix_sql_cnt(2) [OF cr [unfolded s1(1)]] Suc.prems(3) have "answer s1 \<noteq> []" by simp
      from Suc.IH [OF s1(3) s1(2) this True] show ?thesis .
    qed
  qed
qed

lemma repair_calls_Cons: "repair_calls (st # tr) = length (filter is_fix_call (calls st)) + repair_calls tr"
  by (simp add: repair_calls_def)

lemma repair_calls_Nil: "repair_calls [] = 0"
  by (simp add: repair_calls_def)

lemma run_fix_bound:
  assumes "run limit envs n rs s = (tr, out)" and "n = sql_fix \<or> n = analyzer"
  shows "int (repair_calls tr) \<le> max 0 (10 - cnt s)"
  using assms
proof (induction limit arbitrary: envs n rs s tr out)
  case 0
  then show ?case by (simp add: repair_calls_Nil)
next
  case (Suc k)
  show ?case
  proof (cases "n = analyzer")
    case True
    have "repair_calls tr = 0"
    proof (cases tr)
      case Nil
      then show ?thesis by (simp add: repair_calls_Nil)
    next
      case (Cons st tr')
      then have "st \<in> set tr" by simp
      from run_analyzer [OF Suc.prems(1) [unfolded True] this]
      show ?thesis by (simp add: repair_calls_def)
    qed
    then show ?thesis by simp
  next
    case False
    with Suc.prems(2) have n: "n = sql_fix" by simp
    obtain c r where cr: "fix_sql (envs 0) s = (c, r)" by (cases "fix_sql (envs 0) s")
    from run_fix_step [OF Suc.prems(1) [unfolded n] cr]
    obtain tr' where tr: "tr = \<lparr>at = sql_fix, pre = s, calls = c, res = r\<rparr> # tr'"
      and rest: "tr' = [] \<or> (\<exists>s1 n' out'. r = Return s1 \<and> (n' = sql_fix \<or> n' = analyzer) \<and>
                 run k (\<lambda>k. envs (Suc k)) n' [] s1 = (tr', out'))"
      by blast
    note c1 = fix_sql_calls [OF cr]
    from rest show ?thesis
    proof
      assume "tr' = []"
      with tr c1 show ?thesis
        by (cases "filter is_fix_call c = []") (auto simp: repair_calls_Cons repair_calls_Nil)
    next
      assume "\<exists>s1 n' out'. r = Return s1 \<and> (n' = sql_fix \<or> n' = analyzer) \<and>
                 run k (\<lambda>k. envs (Suc k)) n' [] s1 = (tr', out')"
      then obtain s1 n' out' where s1: "r = Return s1" "n' = sql_fix \<or> n' = analyzer"
        "run k (\<lambda>k. envs (Suc k)) n' [] s1 = (tr', out')" by auto
      from Suc.IH [OF s1(3) s1(2)] have ih: "int (repair_calls tr') \<le> max 0 (10 - cnt s1)" .
      from fix_sql_cnt(1) [OF cr [unfolded s1(1)]]
      have cnt1: "cnt s1 = (if answer s = [] then cnt s + 1 else cnt s)" .
      show ?thesis
      proof (cases "filter is_fix_call c = []")
        case True
        with tr ih cnt1 show ?thesis by (auto simp: repair_calls_Cons split: if_splits)
      next
        case False
        with c1 have "length (filter is_fix_call c) = 1" "cnt s + 1 \<le> 10" "answer s = []"
          by (auto simp: le_Suc_eq)
        with tr ih cnt1 show ?thesis by (auto simp: repair_calls_Cons)
      qed
    qed
  qed
qed


lemma run_fix_exhausted_step:
  assumes "run limit envs n rs s = (tr, out)" and "n = sql_fix \<or> n = analyzer"
      and "st \<in> set tr" and "exhausted_step st"
  shows "res st = Return ((pre st)\<lparr>cnt := cnt (pre st) + 1, answer := exhaustion_msg\<rparr>) \<and>
         10 < cnt (pre st) + 1 \<and> filter is_fix_call (calls st) = []"
  using assms
proof (induction limit arbitrary: envs n rs s tr out)
  case 0
  then show ?case by simp
next
  case (Suc k)
  show ?case
  proof (cases "n = analyzer")
    case True
    from run_analyzer [OF Suc.prems(1) [unfolded True] Suc.prems(3)] have "at st = analyzer" by blast
    with Suc.prems(4) show ?thesis by (simp add: exhausted_step_def)
  next
    case False
    with Suc.prems(2) have n: "n = sql_fix" by simp
    obtain c r where cr: "fix_sql (envs 0) s = (c, r)" by (cases "fix_sql (envs 0) s")
    from run_fix_step [OF Suc.prems(1) [unfolded n] cr]
    obtain tr' where tr: "tr = \<lparr>at = sql_fix, pre = s, calls = c, res = r\<rparr> # tr'"
      and rest: "tr' = [] \<or> (\<exists>s1 n' out'. r = Return s1 \<and> (n' = sql_fix \<or> n' = analyzer) \<and>
                 run k (\<lambda>k. envs (Suc k)) n' [] s1 = (tr', out'))"
      by blast
    show ?thesis
    proof (cases "st \<in> set tr'")
      case False
      with tr Suc.prems(3) have st: "st = \<lparr>at = sql_fix, pre = s, calls = c, res = r\<rparr>" by auto
      with Suc.prems(4) obtain s' where e: "r = Return s'" "answer s = []" "c \<noteq> []" "is_failed_exec (last c)"
        by (cases r) (auto simp: exhausted_step_def)
      from fix_sql_exhausted [OF cr [unfolded e(1)] e(2-4)] st e(1) show ?thesis by simp
    next
      case True
      with rest obtain s1 n' out' where s1: "r = Return s1" "n' = sql_fix \<or> n' = analyzer"
        "run k (\<lambda>k. envs (Suc k)) n' [] s1 = (tr', out')" by auto
      from Suc.IH [OF s1(3) s1(2) True Suc.prems(4)] show ?thesis .
    qed
  qed
qed

lemma no_good_exec_Cons:
  "no_good_exec (st # tr) \<longleftrightarrow> \<not> list_ex is_good_exec (calls st) \<and> no_good_exec tr"
  by (auto simp: no_good_exec_def list_ex_iff)

lemma run_fix_exhausted_exact:
  assumes "run limit envs sql_fix rs s = (tr, out)" and "cnt s \<le> 10" and "i < length tr"
      and "exhausted_step (tr ! i)" and "no_good_exec (take i tr)"
  shows "cnt (pre (tr ! i)) = 10 \<and> int (repair_calls (take i tr)) = 10 - cnt s"
  using assms
proof (induction limit arbitrary: envs rs s tr out i)
  case 0
  then show ?case by simp
next
  case (Suc k)
  obtain c r where cr: "fix_sql (envs 0) s = (c, r)" by (cases "fix_sql (envs 0) s")
  from run_fix_step [OF Suc.prems(1) cr]
  obtain tr' where tr: "tr = \<lparr>at = sql_fix, pre = s, calls = c, res = r\<rparr> # tr'"
    and rest: "tr' = [] \<or> (\<exists>s1 n' out'. r = Return s1 \<and> (n' = sql_fix \<or> n' = analyzer) \<and>
               run k (\<lambda>k. envs (Suc k)) n' [] s1 = (tr', out'))"
    by blast
  show ?case
  proof (cases i)
    case 0
    with tr Suc.prems(4) obtain s' where e: "r = Return s'" "answer s = []" "c \<noteq> []" "is_failed_exec (last c)"
      by (cases r) (auto simp: exhausted_step_def)
    from fix_sql_exhausted [OF cr [unfolded e(1)] e(2-4)] have "10 < cnt s + 1" by simp
    with Suc.prems(2) 0 tr show ?thesis by (simp add: repair_calls_Nil)
  next
    case (Suc j)
    with tr Suc.prems(3,4,5) have j: "j < length tr'" "exhausted_step (tr' ! j)"
      "\<not> list_ex is_good_exec c" "no_good_exec (take j tr')"
      by (simp_all add: no_good_exec_Cons)
    then have "tr' \<noteq> []" by auto
    with rest obtain s1 n' out' where s1: "r = Return s1" "n' = sql_fix \<or> n' = analyzer"
      "run k (\<lambda>k. envs (Suc k)) n' [] s1 = (tr', out')" by auto
    from j(1) have mem: "tr' ! j \<in> set tr'" by simp
    have n': "n' = sql_fix"
    proof (rule ccontr)
      assume "n' \<noteq> sql_fix"
      with s1(2) have a: "n' = analyzer" by simp
      from run_analyzer [OF s1(3) [unfolded a] mem] j(2) show False
        by (simp add: exhausted_step_def)
    qed
    have open1: "answer s1 = []"
    proof (rule ccontr)
      assume "answer s1 \<noteq> []"
      from run_fix_answered [OF s1(3) s1(2) this mem] j(2) show False
        by (simp add: exhausted_step_def)
    qed
    have open0: "answer s = []"
    proof (rule ccontr)
      assume a: "answer s \<noteq> []"
      from fix_sql_cnt(2) [OF cr [unfolded s1(1)] a] a open1 show False by simp
    qed
    have not_ex: "\<not> (c \<noteq> [] \<and> is_failed_exec (last c))"
    proof
      assume "c \<noteq> [] \<and> is_failed_exec (last c)"
      with fix_sql_exhausted [OF cr [unfolded s1(1)] open0] have "answer s1 = exhaustion_msg" by simp
      with open1 exhaustion_msg_nonempty show False by simp
    qed
    from fix_sql_repaired [OF cr [unfolded s1(1)] open0 j(3) not_ex]
    have one: "length (filter is_fix_call c) = 1" .
    then have "filter is_fix_call c \<noteq> []" by auto
    with fix_sql_calls(2) [OF cr] have le: "cnt s + 1 \<le> 10" by simp
    from fix_sql_cnt(1) [OF cr [unfolded s1(1)]] open0 have c1: "cnt s1 = cnt s + 1" by simp
    with le have "cnt s1 \<le> 10" by simp
    from Suc.IH [OF s1(3) [unfolded n'] this j(1) j(2) j(4)]
    have "cnt (pre (tr' ! j)) = 10 \<and> int (repair_calls (take j tr')) = 10 - cnt s1" .
    with tr Suc one c1 show ?thesis by (simp add: repair_calls_Cons)
  qed
qed

lemma failing_env_fields:
  "get_engine failing_env = None"
  "read_sql failing_env sql = Inl column_error"
  "fix_agent failing_env schema sql err = Inr repair_reply"
  by (simp_all add: failing_env_def shop_env_def)

lemma fixed_reply:
  "contains (clean_fix repair_reply) sql_tag"
  "from_index (clean_fix repair_reply) sql_tag = Some repair_reply"
  "strip (replace sql_tag [] repair_reply) = repaired_sql"
  by (simp_all add: clean_fix_def repair_reply_def repaired_sql_def text_eval)

lemma fix_sql_failing:
  assumes "answer s = []"
  shows "fix_sql failing_env s =
     (if cnt s + 1 > 10
      then ([GetEngine, ReadSql (final_sql s) (Inl column_error)],
            Return (s\<lparr>cnt := cnt s + 1, answer := exhaustion_msg\<rparr>))
      else ([GetEngine, ReadSql (final_sql s) (Inl column_error),
             FixAgent (final_sql s) column_error],
            Return (s\<lparr>cnt := cnt s + 1,
                      messages := messages s @
                        [\<lparr>role = fix_role @ str_int (cnt s + 1),
                          content = fix_message (final_sql s) column_error\<rparr>],
                      final_sql := Some repaired_sql\<rparr>)))"
  using assms
  by (simp add: fix_sql_def Let_def failing_env_fields fixed_reply)

lemma failing_envs_shift: "(\<lambda>k. failing_envs (Suc k)) = failing_envs"
  by (simp add: failing_envs_def fun_eq_iff)

lemma failing_loop:
  assumes "answer s = []" and "query_data s = []" and "cnt s = 10 - int m" and "m \<le> 10" and "m < limit"
  shows "m < length (fst (run limit failing_envs sql_fix rs s)) \<and>
         exhausted_step (fst (run limit failing_envs sql_fix rs s) ! m) \<and>
         no_good_exec (take m (fst (run limit failing_envs sql_fix rs s)))"
  using assms
proof (induction m arbitrary: s limit rs)
  case 0
  then obtain k where k: "limit = Suc k" by (cases limit) auto
  from 0 have c: "cnt s + 1 > 10" by simp
  have "\<exists>tr'. fst (run (Suc k) failing_envs sql_fix rs s) =
      \<lparr>at = sql_fix, pre = s, calls = [GetEngine, ReadSql (final_sql s) (Inl column_error)],
        res = Return (s\<lparr>cnt := cnt s + 1, answer := exhaustion_msg\<rparr>)\<rparr> # tr'"
    using c 0(2)
    by (simp add: fix_sql_failing [OF 0(1)] fix_path_def failing_envs_def [of 0] Let_def)
  then show ?case
    unfolding k using 0(1) by (auto simp: exhausted_step_def no_good_exec_def)
next
  case (Suc m)
  then obtain k where k: "limit = Suc k" and mk: "m < k" by (cases limit) auto
  from Suc.prems have c: "\<not> cnt s + 1 > 10" by simp
  let ?s1 = "s\<lparr>cnt := cnt s + 1,
                messages := messages s @
                  [\<lparr>role = fix_role @ str_int (cnt s + 1),
                    content = fix_message (final_sql s) column_error\<rparr>],
                final_sql := Some repaired_sql\<rparr>"
  have s1: "answer ?s1 = []" "query_data ?s1 = []" "cnt ?s1 = 10 - int m" "m \<le> 10"
    using Suc.prems by simp_all
  from Suc.IH [OF s1 mk, of "[]"]
  have ih: "m < length (fst (run k failing_envs sql_fix [] ?s1)) \<and>
         exhausted_step (fst (run k failing_envs sql_fix [] ?s1) ! m) \<and>
         no_good_exec (take m (fst (run k failing_envs sql_fix [] ?s1)))" .
  have step: "run (Suc k) failing_envs sql_fix rs s =
      (\<lparr>at = sql_fix, pre = s,
         calls = [GetEngine, ReadSql (final_sql s) (Inl column_error),
             FixAgent (final_sql s) column_error],
         res = Return ?s1\<rparr> # fst (run k failing_envs sql_fix [] ?s1),
       snd (run k failing_envs sql_fix [] ?s1))"
    using c Suc.prems(1,2)
    by (simp add: failing_envs_shift fix_sql_failing [OF Suc.prems(1)] fix_path_def
        failing_envs_def [of 0] Let_def)
  show ?case
    unfolding k step using ih by (simp add: no_good_exec_Cons)
qed


lemma failing_run_facts:
  "10 < length (fst (run 11 failing_envs sql_fix [] generated_state)) \<and>
   exhausted_step (fst (run 11 failing_envs sql_fix [] generated_state) ! 10) \<and>
   no_good_exec (take 10 (fst (run 11 failing_envs sql_fix [] generated_state)))"
proof -
  have a: "answer generated_state = []" "query_data generated_state = []"
    "cnt generated_state = 10 - int 10" "(10::nat) \<le> 10" "(10::nat) < 11"
    by (simp_all add: generated_state_def shop_state_def initial_state_def)
  from failing_loop [OF a] show ?thesis .
qed

text \<open>
  C1, as the code has it. \<open>fix_sql\<close> increments the counter before it executes the
  statement and tests \<open>cnt > 10\<close> after the increment, once the execution has failed; the
  counter counts executions. In a run of the repair loop that starts with the counter at 0
  the repair collaborator is called at most 10 times. In the step that reaches Exhausted it
  is not called, the answer becomes the fixed exhaustion message, and the counter is above
  10: when no execution before succeeded it is 11, after exactly 10 repair calls.
\<close>

theorem exhaustion_after_ten_repairs:
  assumes "run limit envs sql_fix resumes state = (tr, out)" and "cnt state = 0"
      and "i < length tr" and "exhausted_step (tr ! i)"
  shows "res (tr ! i) = Return ((pre (tr ! i))\<lparr>cnt := cnt (pre (tr ! i)) + 1, answer := exhaustion_msg\<rparr>) \<and>
         10 < cnt (pre (tr ! i)) + 1 \<and>
         filter is_fix_call (calls (tr ! i)) = [] \<and>
         repair_calls tr \<le> 10 \<and>
         (no_good_exec (take i tr) \<longrightarrow> cnt (pre (tr ! i)) + 1 = 11 \<and> repair_calls (take i tr) = 10)"
proof -
  from assms(3) have mem: "tr ! i \<in> set tr" by simp
  have n: "sql_fix = sql_fix \<or> sql_fix = analyzer" by simp
  from run_fix_exhausted_step [OF assms(1) n mem assms(4)]
  have 1: "res (tr ! i) = Return ((pre (tr ! i))\<lparr>cnt := cnt (pre (tr ! i)) + 1, answer := exhaustion_msg\<rparr>) \<and>
         10 < cnt (pre (tr ! i)) + 1 \<and> filter is_fix_call (calls (tr ! i)) = []" .
  from run_fix_bound [OF assms(1) n] assms(2) have 2: "repair_calls tr \<le> 10" by simp
  have 3: "cnt (pre (tr ! i)) + 1 = 11 \<and> repair_calls (take i tr) = 10" if "no_good_exec (take i tr)"
    using run_fix_exhausted_exact [OF assms(1) _ assms(3,4) that] assms(2) by simp
  from 1 2 3 show ?thesis by blast
qed


theorem exhaustion_after_ten_repairs_witness:
  "cnt (pre (fst (run 11 failing_envs sql_fix [] generated_state) ! 10)) + 1 = 11 \<and>
   filter is_fix_call (calls (fst (run 11 failing_envs sql_fix [] generated_state) ! 10)) = [] \<and>
   repair_calls (take 10 (fst (run 11 failing_envs sql_fix [] generated_state))) = 10 \<and>
   repair_calls (fst (run 11 failing_envs sql_fix [] generated_state)) \<le> 10"
proof -
  obtain tr out where r: "run 11 failing_envs sql_fix [] generated_state = (tr, out)"
    by (cases "run 11 failing_envs sql_fix [] generated_state")
  have c: "cnt generated_state = 0"
    by (simp add: generated_state_def shop_state_def initial_state_def)
  from failing_run_facts r have f: "10 < length tr" "exhausted_step (tr ! 10)" "no_good_exec (take 10 tr)"
    by simp_all
  from exhaustion_after_ten_repairs [OF r c f(1,2)] f(3) r show ?thesis by simp
qed

text \<open>
  The claim as stated fails: when every execution fails, the eleventh invocation reaches
  Exhausted with the counter at 11.
\<close>

theorem exhaustion_count_counterexample:
  "exhausted_step (fst (run 11 failing_envs sql_fix [] generated_state) ! 10) \<and>
   map_option cnt (returned (calls (fst (run 11 failing_envs sql_fix [] generated_state) ! 10),
                             res (fst (run 11 failing_envs sql_fix [] generated_state) ! 10))) = Some 11 \<and>
   map_option answer (returned (calls (fst (run 11 failing_envs sql_fix [] generated_state) ! 10),
                             res (fst (run 11 failing_envs sql_fix [] generated_state) ! 10))) = Some exhaustion_msg"
proof -
  obtain tr out where r: "run 11 failing_envs sql_fix [] generated_state = (tr, out)"
    by (cases "run 11 failing_envs sql_fix [] generated_state")
  have c: "cnt generated_state \<le> 10"
    by (simp add: generated_state_def shop_state_def initial_state_def)
  from failing_run_facts r have f: "10 < length tr" "exhausted_step (tr ! 10)" "no_good_exec (take 10 tr)"
    by simp_all
  then have mem: "tr ! 10 \<in> set tr" by simp
  have n: "sql_fix = sql_fix \<or> sql_fix = analyzer" by simp
  from run_fix_exhausted_step [OF r n mem f(2)] run_fix_exhausted_exact [OF r c f] f(2) r
  show ?thesis by simp
qed



section \<open>Stages after an answer\<close>









text \<open>
  Once the answer is set while no query result is stored, the router of the repair stage
  sends the run back to the repair stage each time, until the step limit ends it.
\<close>

lemma answered_run_never_finishes:
  assumes "answer s \<noteq> []" and "query_data s = []"
  shows "snd (run limit envs sql_fix rs s) = Failed GraphRecursionError"
  using assms
proof (induction limit arbitrary: envs rs s)
  case 0
  then show ?case by simp
next
  case (Suc k)
  let ?s1 = "s\<lparr>messages := messages s @ [\<lparr>role = fix_role @ str_int (cnt s), content = []\<rparr>]\<rparr>"
  have "answer ?s1 \<noteq> []" "query_data ?s1 = []" using Suc.prems by simp_all
  from Suc.IH [OF this] Suc.prems show ?case
    by (simp add: fix_sql_skip fix_path_def Let_def)
qed

section \<open>A request answered at the first execution\<close>

lemma add_ambiguous_Nil: "add_ambiguous d [] = d"
  by (simp add: add_ambiguous_def)

lemma get_user_question_cong:
  "intent_ambiguous s' = intent_ambiguous s \<Longrightarrow> get_user_question s' = get_user_question s"
  by (simp add: get_user_question_def)

lemma happy_path:
  assumes s: "answer s = []" "get_user_question s = []" "cnt s = 0"
    and intent: "llm_intent (envs 0) (user_input s) = Inr response"
      "parse_intent_result (extract_response_text response) = (QUERY, None)"
    and analysis: "get_table_schemas (envs 1) (database s) = Inr (Some schema)"
      "llm_analyze (envs 1) (query_text s) (info_lines (intent_ambiguous s)) (schema_lines schema) = Inr reply"
      "r_intent_ambiguous reply = []" "r_cannot_answer reply = []"
    and discovery: "search_agent (envs 2) (r_actual_query reply) = Inr found"
      "startswith (matched_text (envs 2) (clean_found found)) open_bracket"
      "json_loads (envs 2) (matched_text (envs 2) (clean_found found)) = Some (JsonIdList ids)"
      "get_by_column_id (envs 2) ids = Inr (markdown, shown)"
    and generation: "search_sql (envs 3) (tables s) = Inr sql_his"
      "search_query (envs 3) (r_actual_query reply) = Inr query_his"
      "llm_code (envs 3) (r_actual_query reply) markdown (query_his_text query_his)
         (sql_his_text sql_his) = Inr generated"
      "clean_sql generated \<noteq> []" "has_sql_keyword (clean_sql generated)"
    and execution: "get_engine (envs 4) = None"
      "read_sql (envs 4) (Some (clean_sql generated)) = Inr table" "table \<noteq> []"
    and limit: "5 \<le> limit"
  shows "invoked (run limit envs entry_point [] s) =
           [query_intent, query_analyze, table_search, sql_coder, sql_fix] \<and>
         map_option intent_type (final_state (run limit envs entry_point [] s)) = Some QUERY \<and>
         map_option cnt (final_state (run limit envs entry_point [] s)) = Some 1 \<and>
         map_option answer (final_state (run limit envs entry_point [] s)) = Some table \<and>
         map_option query_data (final_state (run limit envs entry_point [] s)) = Some table \<and>
         map_option final_sql (final_state (run limit envs entry_point [] s)) = Some (Some (clean_sql generated)) \<and>
         map_option (\<lambda>s'. check_result \<lparr>state_values = s', interrupts = []\<rparr>)
             (final_state (run limit envs entry_point [] s))
           = Some (Completed table (Some (clean_sql generated)) table)"
proof -
  from limit have "limit = Suc (Suc (Suc (Suc (Suc (limit - 5)))))" by arith
  then obtain k where k: "limit = Suc (Suc (Suc (Suc (Suc k))))" ..
  have e: "envs 1 = envs (Suc 0)" "envs 2 = envs (Suc (Suc 0))" "envs 3 = envs (Suc (Suc (Suc 0)))"
    "envs 4 = envs (Suc (Suc (Suc (Suc 0))))"
    by (simp_all add: eval_nat_numeral)
  note analysis = analysis [unfolded e] and discovery = discovery [unfolded e]
    and generation = generation [unfolded e] and execution = execution [unfolded e]
  define s1 where "s1 = s\<lparr>messages := messages s @
      [\<lparr>role = route_role, content = intent_map_get (extract_response_text response)\<rparr>],
      intent_type := QUERY\<rparr>"
  have p1: "parse_intent (envs 0) s = ([LlmIntent], Return s1)"
    by (simp add: parse_intent_def Let_def intent s1_def)
  have n1: "intent_path s1 = Node query_analyze" by (simp add: intent_path_def s1_def)
  have q0: "intent_ambiguous s1 = intent_ambiguous s" by (simp add: s1_def)
  have q1: "get_user_question s1 = []" "query_text s1 = query_text s" "database s1 = database s"
    "intent_ambiguous s1 = intent_ambiguous s"
    using s(2) get_user_question_cong [OF q0] by (simp_all add: s1_def query_text_def)
  define s2 where "s2 = s1\<lparr>table_schema := schema_lines schema, actual_query := r_actual_query reply,
      messages := messages s1 @ [\<lparr>role = analyze_role, content = r_thought reply\<rparr>]\<rparr>"
  have p2: "analyze_query (envs (Suc 0)) [] s1 = ([GetTableSchemas, LlmAnalyze], Return s2)"
    by (simp add: analyze_query_def Let_def q1 analysis s2_def add_ambiguous_Nil)
  have "intent_ambiguous s2 = intent_ambiguous s1" by (simp add: s2_def)
  from get_user_question_cong [OF this] q1(1)
  have n2: "analyze_path_map s2 = Node table_search"
    by (simp add: analyze_path_map_def)
  have a2: "answer s2 = []" "actual_query s2 = r_actual_query reply"
    using s(1) by (simp_all add: s2_def s1_def)
  define s3 where "s3 = s2\<lparr>schema_context := markdown,
      messages := messages s2 @ [\<lparr>role = search_role, content = shown\<rparr>]\<rparr>"
  have p3: "search (envs (Suc (Suc 0))) s2 = ([SearchAgent, GetByColumnId], Return s3)"
    by (simp add: search_def Let_def a2 discovery s3_def)
  have a3: "answer s3 = []" "actual_query s3 = r_actual_query reply" "tables s3 = tables s"
    "schema_context s3 = markdown"
    using a2 by (simp_all add: s3_def s2_def s1_def)
  define s4 where "s4 = s3\<lparr>messages := messages s3 @
      [\<lparr>role = coder_role, content = sql_fence @ [10] @ generated @ [10] @ fence\<rparr>],
      final_sql := Some (clean_sql generated)\<rparr>"
  have p4: "code_sql (envs (Suc (Suc (Suc 0)))) s3 = ([SearchSql, SearchQuery, LlmCode], Return s4)"
    by (simp add: code_sql_def Let_def a3 generation s4_def)
  have a4: "answer s4 = []" "final_sql s4 = Some (clean_sql generated)" "cnt s4 = 0"
    "intent_type s4 = QUERY"
    using a3 s(3) by (simp_all add: s4_def s3_def s2_def s1_def)
  define s5 where "s5 = s4\<lparr>cnt := 1, query_data := table, answer := table\<rparr>"
  have p5: "fix_sql (envs (Suc (Suc (Suc (Suc 0))))) s4 =
      ([GetEngine, ReadSql (Some (clean_sql generated)) (Inr table)], Return s5)"
    by (simp add: fix_sql_def Let_def a4 execution s5_def)
  have n5: "fix_path s5 = END"
    using a4(4) execution(3) by (simp add: fix_path_def s5_def)
  have r: "run limit envs entry_point [] s =
      ([\<lparr>at = query_intent, pre = s, calls = [LlmIntent], res = Return s1\<rparr>,
        \<lparr>at = query_analyze, pre = s1, calls = [GetTableSchemas, LlmAnalyze], res = Return s2\<rparr>,
        \<lparr>at = table_search, pre = s2, calls = [SearchAgent, GetByColumnId], res = Return s3\<rparr>,
        \<lparr>at = sql_coder, pre = s3, calls = [SearchSql, SearchQuery, LlmCode], res = Return s4\<rparr>,
        \<lparr>at = sql_fix, pre = s4,
          calls = [GetEngine, ReadSql (Some (clean_sql generated)) (Inr table)], res = Return s5\<rparr>],
       Finished s5)"
    unfolding k entry_point_def
    by (simp add: p1 n1 p2 n2 p3 p4 p5 n5 Let_def)
  have f: "cnt s5 = 1" "answer s5 = table" "query_data s5 = table" "final_sql s5 = Some (clean_sql generated)"
    "intent_type s5 = QUERY"
    using a4 by (simp_all add: s5_def)
  show ?thesis
    unfolding r using f execution(3) by (simp add: invoked_def check_result_def)
qed


lemma shop_scenario:
  "answer shop_state = []" "get_user_question shop_state = []" "cnt shop_state = 0"
  "llm_intent (shop_envs 0) (user_input shop_state) = Inr (U ''query'')"
  "parse_intent_result (extract_response_text (U ''query'')) = (QUERY, None)"
  "get_table_schemas (shop_envs 1) (database shop_state) = Inr (Some [(U ''sales'', U ''orders'')])"
  "llm_analyze (shop_envs 1) (query_text shop_state) (info_lines (intent_ambiguous shop_state))
     (schema_lines [(U ''sales'', U ''orders'')])
     = Inr \<lparr>r_thought = U ''clear'', r_intent_ambiguous = [], r_cannot_answer = [],
            r_actual_query = query_text shop_state\<rparr>"
  "r_intent_ambiguous \<lparr>r_thought = U ''clear'', r_intent_ambiguous = [], r_cannot_answer = [],
            r_actual_query = query_text shop_state\<rparr> = []"
  "r_cannot_answer \<lparr>r_thought = U ''clear'', r_intent_ambiguous = [], r_cannot_answer = [],
            r_actual_query = query_text shop_state\<rparr> = []"
  "search_agent (shop_envs 2) (r_actual_query \<lparr>r_thought = U ''clear'', r_intent_ambiguous = [],
            r_cannot_answer = [], r_actual_query = query_text shop_state\<rparr>) = Inr (U ''[1, 2]'')"
  "startswith (matched_text (shop_envs 2) (clean_found (U ''[1, 2]''))) open_bracket"
  "json_loads (shop_envs 2) (matched_text (shop_envs 2) (clean_found (U ''[1, 2]'')))
     = Some (JsonIdList [U ''1'', U ''2''])"
  "get_by_column_id (shop_envs 2) [U ''1'', U ''2''] = Inr (U ''| sales | product_id |'', U ''| sales |'')"
  "search_sql (shop_envs 3) (tables shop_state) = Inr []"
  "search_query (shop_envs 3) (r_actual_query \<lparr>r_thought = U ''clear'', r_intent_ambiguous = [],
            r_cannot_answer = [], r_actual_query = query_text shop_state\<rparr>) = Inr []"
  "llm_code (shop_envs 3) (r_actual_query \<lparr>r_thought = U ''clear'', r_intent_ambiguous = [],
            r_cannot_answer = [], r_actual_query = query_text shop_state\<rparr>)
     (U ''| sales | product_id |'') (query_his_text []) (sql_his_text []) = Inr shop_sql"
  "clean_sql shop_sql \<noteq> []" "has_sql_keyword (clean_sql shop_sql)"
  "get_engine (shop_envs 4) = None"
  "read_sql (shop_envs 4) (Some (clean_sql shop_sql)) = Inr shop_table" "shop_table \<noteq> []"
  "(5::nat) \<le> 25"
  by (simp_all add: shop_envs_def shop_env_def shop_state_def initial_state_def get_user_question_def
      parse_intent_result_def extract_response_text_def matched_text_def clean_found_def
      open_bracket_def clean_shop_sql keyword_shop_sql shop_sql_nonempty shop_table_def text_eval)

text \<open>
  C3, as the code has it. In every run in which the intent classifies as \<open>query\<close>, no
  ambiguity is open or found, field discovery and SQL generation succeed and the first
  execution succeeds with a non-empty table, the five stages run once each, the run
  finishes, \<open>process_chat\<close> reports it completed with the table as answer, and the
  counter is 1: the one execution has been counted.
\<close>

theorem first_execution_success_completes:
  assumes s: "answer s = []" "get_user_question s = []" "cnt s = 0"
    and intent: "llm_intent (envs 0) (user_input s) = Inr response"
      "parse_intent_result (extract_response_text response) = (QUERY, None)"
    and analysis: "get_table_schemas (envs 1) (database s) = Inr (Some schema)"
      "llm_analyze (envs 1) (query_text s) (info_lines (intent_ambiguous s)) (schema_lines schema) = Inr reply"
      "r_intent_ambiguous reply = []" "r_cannot_answer reply = []"
    and discovery: "search_agent (envs 2) (r_actual_query reply) = Inr found"
      "startswith (matched_text (envs 2) (clean_found found)) open_bracket"
      "json_loads (envs 2) (matched_text (envs 2) (clean_found found)) = Some (JsonIdList ids)"
      "get_by_column_id (envs 2) ids = Inr (markdown, shown)"
    and generation: "search_sql (envs 3) (tables s) = Inr sql_his"
      "search_query (envs 3) (r_actual_query reply) = Inr query_his"
      "llm_code (envs 3) (r_actual_query reply) markdown (query_his_text query_his)
         (sql_his_text sql_his) = Inr generated"
      "clean_sql generated \<noteq> []" "has_sql_keyword (clean_sql generated)"
    and execution: "get_engine (envs 4) = None"
      "read_sql (envs 4) (Some (clean_sql generated)) = Inr table" "table \<noteq> []"
    and limit: "5 \<le> limit"
  shows "invoked (run limit envs entry_point [] s) =
           [query_intent, query_analyze, table_search, sql_coder, sql_fix] \<and>
         map_option intent_type (final_state (run limit envs entry_point [] s)) = Some QUERY \<and>
         map_option cnt (final_state (run limit envs entry_point [] s)) = Some 1 \<and>
         map_option answer (final_state (run limit envs entry_point [] s)) = Some table \<and>
         map_option query_data (final_state (run limit envs entry_point [] s)) = Some table \<and>
         map_option final_sql (final_state (run limit envs entry_point [] s)) = Some (Some (clean_sql generated)) \<and>
         map_option (\<lambda>s'. check_result \<lparr>state_values = s', interrupts = []\<rparr>)
             (final_state (run limit envs entry_point [] s))
           = Some (Completed table (Some (clean_sql generated)) table)"
  using assms by (rule happy_path)

theorem first_execution_success_completes_witness:
  "invoked (run 25 shop_envs entry_point [] shop_state) =
     [query_intent, query_analyze, table_search, sql_coder, sql_fix] \<and>
   map_option cnt (final_state (run 25 shop_envs entry_point [] shop_state)) = Some 1 \<and>
   map_option answer (final_state (run 25 shop_envs entry_point [] shop_state)) = Some shop_table \<and>
   map_option (\<lambda>s'. check_result \<lparr>state_values = s', interrupts = []\<rparr>)
       (final_state (run 25 shop_envs entry_point [] shop_state))
     = Some (Completed shop_table (Some shop_sql) shop_table)"
  using first_execution_success_completes [OF shop_scenario] by (simp add: clean_shop_sql)

text \<open>
  The claim as stated fails: in the scenario of the specification the counter is not 0
  when the run has completed.
\<close>

theorem first_execution_count_counterexample:
  "invoked (run 25 shop_envs entry_point [] shop_state) =
     [query_intent, query_analyze, table_search, sql_coder, sql_fix] \<and>
   map_option intent_type (final_state (run 25 shop_envs entry_point [] shop_state)) = Some QUERY \<and>
   map_option answer (final_state (run 25 shop_envs entry_point [] shop_state)) = Some shop_table \<and>
   map_option cnt (final_state (run 25 shop_envs entry_point [] shop_state)) \<noteq> Some 0"
  using happy_path [OF shop_scenario] by auto


end
